theory Spec2Isabelle
  imports Complex_Main
begin

section \<open>Values shared by the commands\<close>

text \<open>
  Python exceptions. \<open>except Exception\<close> catches the first kind only; the second kind
  stands for the exceptions that derive from \<open>BaseException\<close> alone
  (\<open>KeyboardInterrupt\<close>, \<open>SystemExit\<close>, \<open>GeneratorExit\<close>).
\<close>

datatype exn = Exception string | BaseException string

fun is_Exception :: "exn \<Rightarrow> bool" where
  "is_Exception (Exception _) = True"
| "is_Exception (BaseException _) = False"

type_synonym bounds = "real \<times> real \<times> real \<times> real"

datatype zoom_levels = Zoom int | Zooms "int list"

text \<open>The tile object of the process pyramid: \<open>tile.id\<close>, \<open>tile.bounds\<close>, \<open>tile.zoom\<close>.\<close>

record tile_obj =
  tile_id :: "int \<times> int \<times> int"
  tile_bounds :: bounds
  tile_zoom :: int

record process_info =
  pi_tile :: tile_obj
  process_msg :: "string option"
  write_msg :: "string option"

subsection \<open>Truthiness and string formatting\<close>

text \<open>\<open>x or y\<close> and \<open>if x:\<close> test truthiness: \<open>None\<close>, \<open>0\<close> and \<open>""\<close> are false.\<close>

fun truthy_int :: "int option \<Rightarrow> bool" where
  "truthy_int None = False"
| "truthy_int (Some n) = (n \<noteq> 0)"

fun truthy_str :: "string option \<Rightarrow> bool" where
  "truthy_str None = False"
| "truthy_str (Some s) = (s \<noteq> [])"

definition digit_char :: "nat \<Rightarrow> char" where
  "digit_char d = ''0123456789'' ! d"

function str_nat :: "nat \<Rightarrow> string" where
  "str_nat n = (if n < 10 then [digit_char n] else str_nat (n div 10) @ [digit_char (n mod 10)])"
  by pat_completeness auto
termination
  by (relation "measure id") auto

declare str_nat.simps [simp del]

definition str_int :: "int \<Rightarrow> string" where
  "str_int i = (if i < 0 then CHR ''-'' # str_nat (nat (- i)) else str_nat (nat i))"

fun str_opt_int :: "int option \<Rightarrow> string" where
  "str_opt_int None = ''None''"
| "str_opt_int (Some i) = str_int i"

fun str_opt :: "string option \<Rightarrow> string" where
  "str_opt None = ''None''"
| "str_opt (Some s) = s"

definition str_tile_id :: "int \<times> int \<times> int \<Rightarrow> string" where
  "str_tile_id t = (case t of (z, r, c) \<Rightarrow>
     ''('' @ str_int z @ '', '' @ str_int r @ '', '' @ str_int c @ '')'')"

section \<open>The world the commands act on\<close>

text \<open>
  The keyword arguments of \<open>mapchete.open\<close> (\<open>_execute.py\<close>, lines 113 to 120), of
  \<open>mp.batch_processor\<close> (lines 139 to 143 and 161) and of the executor (lines 145 to 149).
\<close>

record open_call =
  oc_config :: string
  oc_mode :: string
  oc_bounds :: "bounds option"
  oc_zoom :: "zoom_levels option"
  oc_area :: "string option"
  oc_area_crs :: "string option"

record batch_kwargs =
  bk_tile :: "tile_obj option"
  bk_multi :: "int option"
  bk_zoom :: "zoom_levels option"

record executor_kwargs =
  ek_dask_scheduler :: "string option"
  ek_max_chunksize :: "int option"
  ek_multiprocessing_start_method :: "string option"

text \<open>
  Every effect of the commands is an event appended to a trace: the opening of the
  process context, the counting of its tiles, a call of the message callback, the start
  of the batch processor, the release of the context (\<open>mp.__exit__(None, None, None)\<close>),
  the scoped use of an executor, and the output of the command line.
\<close>

datatype event =
    Open open_call
  | CountTiles
  | MsgCallback string
  | BatchProcessor "string option" batch_kwargs
  | Exit
  | ExecutorEnter "string option" executor_kwargs
  | ExecutorExit
  | TqdmIter bool
  | TqdmWrite string

type_synonym world = "event list"

definition mp_exit :: "world \<Rightarrow> world" where
  "mp_exit w = w @ [Exit]"

definition closes :: "world \<Rightarrow> nat" where
  "closes w = length (filter (\<lambda>ev. ev = Exit) w)"

text \<open>
  The collaborators of \<open>execute\<close> that are outside the sources, taken as parameters:
  \<open>multiprocessing.cpu_count()\<close>, the tile lookup
  \<open>raw_conf_process_pyramid(raw_conf(mapchete_config)).tile(*tile)\<close>,
  \<open>bounds_from_opts\<close>, \<open>mapchete.open\<close> (\<open>None\<close> when it returns the context),
  \<open>mp.count_tiles()\<close>, and the items \<open>mp.batch_processor\<close> yields, followed by the
  exception it raises, if any.
\<close>

record env =
  cpu_count :: int
  pyramid_tile :: "int \<times> int \<times> int \<Rightarrow> exn + tile_obj"
  bounds_from_opts ::
    "(real \<times> real) option \<Rightarrow> string option \<Rightarrow> bounds option \<Rightarrow> string option \<Rightarrow> exn + bounds option"
  mapchete_open :: "open_call \<Rightarrow> exn option"
  count_tiles :: "exn + int"
  batch_processor :: "string option \<Rightarrow> batch_kwargs \<Rightarrow> process_info list \<times> exn option"

section \<open>The generator \<open>_msg_wrapper\<close>\<close>

text \<open>
  A generator object of \<open>_msg_wrapper(msg_callback, mp, executor=executor, **kwargs)\<close>
  (lines 159 to 168). It is created without running any of its body; it is suspended at
  the \<open>yield\<close> of line 162 with the items the batch processor has still to give; it is
  finished once the body has been left.
\<close>

datatype gen_state =
    Created
  | Suspended process_info "process_info list" "exn option"
  | Finished

record generator =
  g_msg_callback :: "string \<Rightarrow> exn option"
  g_mp :: env
  g_executor :: "string option"
  g_kwargs :: batch_kwargs
  g_state :: gen_state

datatype step = Yield process_info | StopIteration | Raise exn

definition msg_wrapper ::
  "(string \<Rightarrow> exn option) \<Rightarrow> env \<Rightarrow> string option \<Rightarrow> batch_kwargs \<Rightarrow> generator" where
  "msg_wrapper msg_cb mp executor kwargs =
     \<lparr>g_msg_callback = msg_cb, g_mp = mp, g_executor = executor, g_kwargs = kwargs,
      g_state = Created\<rparr>"

definition tile_msg :: "process_info \<Rightarrow> string" where
  "tile_msg p = ''Tile '' @ str_tile_id (tile_id (pi_tile p)) @ '': '' @ str_opt (process_msg p)
     @ '', '' @ str_opt (write_msg p)"

text \<open>
  The head of the \<open>for\<close> loop of line 161: the next item is yielded; when the batch
  processor is exhausted or raises, the body is left through the \<open>finally\<close> of
  lines 167 and 168.
\<close>

fun advance :: "process_info list \<Rightarrow> exn option \<Rightarrow> world \<Rightarrow> step \<times> gen_state \<times> world" where
  "advance (x # xs) ending w = (Yield x, Suspended x xs ending, w)"
| "advance [] None w = (StopIteration, Finished, mp_exit w)"
| "advance [] (Some e) w = (Raise e, Finished, mp_exit w)"

text \<open>
  \<open>next(gen)\<close>. A suspended generator resumes after the \<open>yield\<close>: it calls the message
  callback (lines 163 to 165), whose exception also leaves through the \<open>finally\<close>.
\<close>

definition gen_next :: "generator \<Rightarrow> world \<Rightarrow> step \<times> generator \<times> world" where
  "gen_next g w =
     (case g_state g of
        Created \<Rightarrow>
          (case batch_processor (g_mp g) (g_executor g) (g_kwargs g) of
             (items, ending) \<Rightarrow>
               (case advance items ending (w @ [BatchProcessor (g_executor g) (g_kwargs g)]) of
                  (s, st, w') \<Rightarrow> (s, g\<lparr>g_state := st\<rparr>, w')))
      | Suspended x xs ending \<Rightarrow>
          (case g_msg_callback g (tile_msg x) of
             Some e \<Rightarrow> (Raise e, g\<lparr>g_state := Finished\<rparr>, mp_exit (w @ [MsgCallback (tile_msg x)]))
           | None \<Rightarrow>
               (case advance xs ending (w @ [MsgCallback (tile_msg x)]) of
                  (s, st, w') \<Rightarrow> (s, g\<lparr>g_state := st\<rparr>, w')))
      | Finished \<Rightarrow> (StopIteration, g, w))"

text \<open>
  \<open>gen.close()\<close>, which is also what abandoning a started generator comes to:
  \<open>GeneratorExit\<close> is raised at the \<open>yield\<close> and the \<open>finally\<close> runs. A generator
  that was never started has not entered its \<open>try\<close>, so closing it runs nothing.
\<close>

definition gen_close :: "generator \<Rightarrow> world \<Rightarrow> generator \<times> world" where
  "gen_close g w =
     (case g_state g of
        Created \<Rightarrow> (g\<lparr>g_state := Finished\<rparr>, w)
      | Suspended x xs ending \<Rightarrow> (g\<lparr>g_state := Finished\<rparr>, mp_exit w)
      | Finished \<Rightarrow> (g, w))"

text \<open>
  Draining a generator, as \<open>list(gen)\<close> or a \<open>for\<close> loop that runs to its end does:
  \<open>next\<close> is called until the generator stops or raises. The result is the exception, if
  any, and the items yielded before it.
\<close>

definition gen_size :: "generator \<Rightarrow> nat" where
  "gen_size g =
     (case g_state g of
        Created \<Rightarrow> length (fst (batch_processor (g_mp g) (g_executor g) (g_kwargs g))) + 1
      | Suspended x xs ending \<Rightarrow> length xs + 1
      | Finished \<Rightarrow> 0)"

function drain :: "generator \<Rightarrow> world \<Rightarrow> (exn option \<times> process_info list) \<times> generator \<times> world" where
  "drain g w =
     (case gen_next g w of
        (Yield x, g', w') \<Rightarrow>
          (case drain g' w' of ((r, xs), g'', w'') \<Rightarrow> ((r, x # xs), g'', w''))
      | (StopIteration, g', w') \<Rightarrow> ((None, []), g', w')
      | (Raise e, g', w') \<Rightarrow> ((Some e, []), g', w'))"
  by pat_completeness auto
termination
  apply (relation "measure (\<lambda>(g, w). gen_size g)")
   apply simp
  apply (auto simp: gen_next_def gen_size_def split: gen_state.splits option.splits prod.splits
      elim!: advance.elims)
  done

declare drain.simps [simp del]

text \<open>
  A consumer that takes \<open>k\<close> items from a generator and then abandons it (a \<open>break\<close>
  out of the loop), which closes the generator; it stops before that if the generator
  stops or raises.
\<close>

fun abandon_after :: "nat \<Rightarrow> generator \<Rightarrow> world \<Rightarrow> generator \<times> world" where
  "abandon_after 0 g w = gen_close g w"
| "abandon_after (Suc k) g w =
     (case gen_next g w of
        (Yield x, g', w') \<Rightarrow> abandon_after k g' w'
      | (StopIteration, g', w') \<Rightarrow> (g', w')
      | (Raise e, g', w') \<Rightarrow> (g', w'))"

section \<open>The Job\<close>

text \<open>
  Modelled from the spec: the class \<open>mapchete.Job\<close> is not in the sources; \<open>execute\<close>
  constructs it (lines 133 to 152) and the command line takes its length and iterates
  it. From sections 3, 4.2 and 6 of the specification: a Job is built from the generator
  function with its arguments, the concurrency of its executor and its total; its length
  is the total; iterating it constructs the executor as a scoped resource and invokes
  \<open>generator_fn(*fargs, executor=..., **fkwargs)\<close>; a Job whose total is 0 gives an
  empty iteration without invoking the executor; without \<open>as_iterator\<close> the items are
  consumed eagerly, which is draining the iterator (the docstring of \<open>execute\<close>: the Job
  is returned "either with already processed items or a generator with known length").
  The generator function is always \<open>_msg_wrapper\<close> here.
\<close>

record job =
  job_fargs :: "(string \<Rightarrow> exn option) \<times> env"
  job_fkwargs :: batch_kwargs
  job_executor_concurrency :: "string option"
  job_executor_kwargs :: executor_kwargs
  job_as_iterator :: bool
  job_total :: int
  job_results :: "process_info list"

definition job_run :: "job \<Rightarrow> world \<Rightarrow> (exn option \<times> process_info list) \<times> world" where
  "job_run j w =
     (if job_total j = 0 then ((None, []), w)
      else
        (case drain
                (msg_wrapper (fst (job_fargs j)) (snd (job_fargs j)) (job_executor_concurrency j)
                   (job_fkwargs j))
                (w @ [ExecutorEnter (job_executor_concurrency j) (job_executor_kwargs j)]) of
           (r, g, w') \<Rightarrow> (r, w' @ [ExecutorExit])))"

definition Job_init :: "job \<Rightarrow> world \<Rightarrow> (exn + job) \<times> world" where
  "Job_init j w =
     (if job_as_iterator j then (Inr j, w)
      else
        (case job_run j w of
           ((Some e, xs), w') \<Rightarrow> (Inl e, w')
         | ((None, xs), w') \<Rightarrow> (Inr (j\<lparr>job_results := xs\<rparr>), w')))"

text \<open>\<open>len(job)\<close>: Python's \<open>len\<close> refuses a negative length.\<close>

definition len_job :: "job \<Rightarrow> exn + int" where
  "len_job j = (if job_total j < 0 then Inl (Exception ''ValueError'') else Inr (job_total j))"

section \<open>The command \<open>execute\<close>\<close>

record execute_args =
  mapchete_config :: string
  zoom :: "zoom_levels option"
  area :: "string option"
  area_crs :: "string option"
  bounds :: "bounds option"
  bounds_crs :: "string option"
  point :: "(real \<times> real) option"
  point_crs :: "string option"
  tile :: "(int \<times> int \<times> int) option"
  overwrite :: bool
  mode :: string
  multi :: "int option"
  max_chunksize :: "int option"
  multiprocessing_start_method :: "string option"
  dask_scheduler :: "string option"
  msg_callback :: "(string \<Rightarrow> exn option) option"
  as_iterator :: bool

text \<open>Lines 93 and 94: \<open>_empty_callback\<close>.\<close>

definition empty_callback :: "string \<Rightarrow> exn option" where
  "empty_callback s = None"

text \<open>
  Lines 99 to 110: with a tile, the tile object is looked up in the process pyramid and
  gives the bounds and the zoom; without one, the bounds come from \<open>bounds_from_opts\<close>
  and the zoom is the caller's. The result is the rebound \<open>tile\<close>, \<open>bounds\<close> and \<open>zoom\<close>.
\<close>

definition execute_selection ::
  "env \<Rightarrow> execute_args \<Rightarrow> exn + (tile_obj option \<times> bounds option \<times> zoom_levels option)" where
  "execute_selection e a =
     (case tile a of
        Some t \<Rightarrow>
          (case pyramid_tile e t of
             Inl ex \<Rightarrow> Inl ex
           | Inr tobj \<Rightarrow> Inr (Some tobj, Some (tile_bounds tobj), Some (Zoom (tile_zoom tobj))))
      | None \<Rightarrow>
          (case bounds_from_opts e (point a) (point_crs a) (bounds a) (bounds_crs a) of
             Inl ex \<Rightarrow> Inl ex
           | Inr b \<Rightarrow> Inr (None, b, zoom a)))"

text \<open>
  Lines 122 to 152, the body of the \<open>try\<close>: the tiles are counted, the message is sent,
  the concurrency is selected and the Job is constructed. \<open>multi\<close>, \<open>tile\<close> and \<open>zoom\<close>
  are the variables as rebound by lines 97 to 102.
\<close>

definition execute_try ::
  "env \<Rightarrow> execute_args \<Rightarrow> (string \<Rightarrow> exn option) \<Rightarrow> int option \<Rightarrow> tile_obj option \<Rightarrow>
   zoom_levels option \<Rightarrow> world \<Rightarrow> (exn + job) \<times> world" where
  "execute_try mp a msg_cb multi' tile' zoom' w =
     (case count_tiles mp of
        Inl ex \<Rightarrow> (Inl ex, w @ [CountTiles])
      | Inr tiles_count \<Rightarrow>
          (let msg = (if tile' = None
                      then ''processing '' @ str_int tiles_count @ '' tile(s) on ''
                             @ str_opt_int multi' @ '' worker(s)''
                      else ''processing 1 tile'')
           in case msg_cb msg of
                Some ex \<Rightarrow> (Inl ex, w @ [CountTiles, MsgCallback msg])
              | None \<Rightarrow>
                  (let concurrency =
                         (if truthy_str (dask_scheduler a) then Some ''dask''
                          else if tiles_count = 1 \<or> multi' = Some 1 \<or> multi' = None then None
                          else Some ''processes'')
                   in Job_init
                        \<lparr>job_fargs = (msg_cb, mp),
                         job_fkwargs =
                           \<lparr>bk_tile = tile', bk_multi = multi',
                            bk_zoom = (if tile' = None then zoom' else None)\<rparr>,
                         job_executor_concurrency = concurrency,
                         job_executor_kwargs =
                           \<lparr>ek_dask_scheduler = dask_scheduler a,
                            ek_max_chunksize = max_chunksize a,
                            ek_multiprocessing_start_method = multiprocessing_start_method a\<rparr>,
                         job_as_iterator = as_iterator a,
                         job_total = (if tile' = None then tiles_count else 1),
                         job_results = []\<rparr>
                        (w @ [CountTiles, MsgCallback msg]))))"

text \<open>
  \<open>execute\<close> (lines 13 to 156). An exception before the context is open leaves nothing
  to release; one raised in the \<open>try\<close> is caught by \<open>except Exception\<close> (lines 154 to
  156), which releases the context and raises it again.
\<close>

definition execute :: "env \<Rightarrow> execute_args \<Rightarrow> world \<Rightarrow> (exn + job) \<times> world" where
  "execute e a w =
     (let mode' = (if overwrite a then ''overwrite'' else mode a);
          msg_cb = (case msg_callback a of Some f \<Rightarrow> f | None \<Rightarrow> empty_callback);
          multi' = (if truthy_int (multi a) then multi a else Some (cpu_count e))
      in case execute_selection e a of
           Inl ex \<Rightarrow> (Inl ex, w)
         | Inr (tile', bounds', zoom') \<Rightarrow>
             (let oc = \<lparr>oc_config = mapchete_config a, oc_mode = mode', oc_bounds = bounds',
                        oc_zoom = zoom', oc_area = area a, oc_area_crs = area_crs a\<rparr>
              in case mapchete_open e oc of
                   Some ex \<Rightarrow> (Inl ex, w)
                 | None \<Rightarrow>
                     (case execute_try e a msg_cb multi' tile' zoom' (w @ [Open oc]) of
                        (Inl ex, w') \<Rightarrow> (Inl ex, if is_Exception ex then mp_exit w' else w')
                      | (Inr j, w') \<Rightarrow> (Inr j, w'))))"

section \<open>The command line of \<open>convert\<close>\<close>

text \<open>
  \<open>cli/default/convert.py\<close>, lines 103 to 152. \<open>commands.convert\<close> and
  \<open>commands.index\<close> are outside the sources: each is given by what it returns for the
  message callback it is handed, a Job (constructed with \<open>as_iterator=True\<close>) or an
  exception. \<open>timer_str\<close> is the text of the timer \<open>t\<close>. The progress bar iterates the
  Job to its end.
\<close>

record cli_env =
  commands_convert :: "(string \<Rightarrow> exn option) option \<Rightarrow> exn + job"
  commands_index :: "(string \<Rightarrow> exn option) option \<Rightarrow> exn + job"
  timer_str :: string

record convert_args =
  tiledir :: string
  vrt :: bool
  debug :: bool
  no_pbar :: bool
  verbose :: bool

text \<open>\<open>tqdm.tqdm.write\<close> handed over as the message callback: it returns normally.\<close>

definition tqdm_write :: "string \<Rightarrow> exn option" where
  "tqdm_write s = None"

text \<open>Lines 137 to 152: the VRT step.\<close>

definition convert_vrt :: "cli_env \<Rightarrow> convert_args \<Rightarrow> world \<Rightarrow> exn option \<times> world" where
  "convert_vrt c a w =
     (if vrt a then
        (case commands_index c (if verbose a then Some tqdm_write else None) of
           Inl ex \<Rightarrow> (Some ex, w @ [TqdmWrite ''creating VRT(s)''])
         | Inr ijob \<Rightarrow>
             (case job_run ijob
                     (w @ [TqdmWrite ''creating VRT(s)'', TqdmIter (debug a \<or> no_pbar a)]) of
                ((Some ex, xs), w') \<Rightarrow> (Some ex, w')
              | ((None, xs), w') \<Rightarrow>
                  (None, w' @ [TqdmWrite (''index(es) creation for '' @ tiledir a @ '' finished'')])))
      else (None, w))"

definition convert :: "cli_env \<Rightarrow> convert_args \<Rightarrow> world \<Rightarrow> exn option \<times> world" where
  "convert c a w =
     (case commands_convert c (if verbose a then Some tqdm_write else None) of
        Inl ex \<Rightarrow> (Some ex, w)
      | Inr job \<Rightarrow>
          (case len_job job of
             Inl ex \<Rightarrow> (Some ex, w)
           | Inr n \<Rightarrow>
               (if n = 0 then (None, w)
                else
                  (case job_run job (w @ [TqdmIter (debug a \<or> no_pbar a)]) of
                     ((Some ex, xs), w') \<Rightarrow> (Some ex, w')
                   | ((None, xs), w') \<Rightarrow>
                       convert_vrt c a
                         (w' @ [TqdmWrite (''processing '' @ tiledir a @ '' finished in ''
                                  @ timer_str c)])))))"

section \<open>The Executor\<close>

text \<open>
  Modelled from the spec: the class \<open>mapchete.Executor\<close> and its Futures are not in the
  sources; only \<open>test/test_executor.py\<close> is. From sections 3, 4.1 and 6 of the
  specification: each item of the iterable becomes one Task \<open>fn(item, *fargs, **fkwargs)\<close>
  and one Future; a Task that raises is captured into its Future as a failure;
  \<open>Future.result()\<close> returns the value, raises the captured failure, or signals the
  cancellation; \<open>as_completed\<close> yields the Futures in input order in sequential mode
  (concurrency \<open>None\<close>) and in completion order in the other modes; after \<open>cancel()\<close> no
  further Task is submitted. A Task is a function that returns its value or the exception
  it raises. The completion order of the concurrent modes is a parameter: the positions
  of the items, in the order in which their Tasks complete.
\<close>

datatype 'r future = Completed 'r | Failed exn | Cancelled

datatype 'r outcome = Returned 'r | Raised exn | CancellationSignalled

fun result :: "'r future \<Rightarrow> 'r outcome" where
  "result (Completed r) = Returned r"
| "result (Failed e) = Raised e"
| "result Cancelled = CancellationSignalled"

fun cancelled :: "'r future \<Rightarrow> bool" where
  "cancelled Cancelled = True"
| "cancelled (Completed r) = False"
| "cancelled (Failed e) = False"

definition run_task :: "('i \<Rightarrow> exn + 'r) \<Rightarrow> 'i \<Rightarrow> 'r future" where
  "run_task fn i = (case fn i of Inl e \<Rightarrow> Failed e | Inr r \<Rightarrow> Completed r)"

record 'r executor =
  ex_concurrency :: "string option"
  ex_cancelled :: bool
  ex_futures :: "'r future list"

datatype 'r fstep = FYield "'r future" | FStop | FRaise exn

text \<open>
  One \<open>next\<close> of \<open>as_completed\<close> in sequential mode, on the items not yet submitted: the
  Task of the first item runs on the calling thread and its Future is yielded.
\<close>

definition sequential_next ::
  "('i \<Rightarrow> exn + 'r) \<Rightarrow> 'r executor \<Rightarrow> 'i list \<Rightarrow> 'r fstep \<times> 'r executor \<times> 'i list" where
  "sequential_next fn ex items =
     (if ex_cancelled ex then (FStop, ex, [])
      else
        (case items of
           [] \<Rightarrow> (FStop, ex, [])
         | i # rest \<Rightarrow>
             (FYield (run_task fn i), ex\<lparr>ex_futures := ex_futures ex @ [run_task fn i]\<rparr>, rest)))"

definition cancel :: "'r executor \<Rightarrow> 'r executor" where
  "cancel ex = ex\<lparr>ex_cancelled := True\<rparr>"

text \<open>
  A consumer that takes every Future \<open>as_completed\<close> yields in sequential mode and calls
  \<open>cancel()\<close> after the Futures numbered in \<open>cancel_after\<close>, as the loops of
  \<open>test_sequential_executor\<close> do. The result is the exception raised out of
  \<open>as_completed\<close>, if any, and the Futures yielded.
\<close>

fun sequential_loop ::
  "('i \<Rightarrow> exn + 'r) \<Rightarrow> (nat \<Rightarrow> bool) \<Rightarrow> nat \<Rightarrow> 'r executor \<Rightarrow> 'i list \<Rightarrow>
   (exn option \<times> 'r future list) \<times> 'r executor" where
  "sequential_loop fn cancel_after k ex [] = ((None, []), ex)"
| "sequential_loop fn cancel_after k ex (i # rest) =
     (case sequential_next fn ex (i # rest) of
        (FYield f, ex', rest') \<Rightarrow>
          (case sequential_loop fn cancel_after (Suc k)
                  (if cancel_after k then cancel ex' else ex') rest of
             ((r, fs), ex'') \<Rightarrow> ((r, f # fs), ex''))
      | (FStop, ex', rest') \<Rightarrow> ((None, []), ex')
      | (FRaise e, ex', rest') \<Rightarrow> ((Some e, []), ex'))"

text \<open>
  \<open>as_completed\<close> taken to its end by a consumer that never cancels: the exception raised
  out of it, if any, and the Futures in the order in which they are yielded.
\<close>

definition as_completed ::
  "string option \<Rightarrow> nat list \<Rightarrow> ('i \<Rightarrow> exn + 'r) \<Rightarrow> 'i list \<Rightarrow> exn option \<times> 'r future list" where
  "as_completed concurrency completion_order fn items =
     (case concurrency of
        None \<Rightarrow>
          fst (sequential_loop fn (\<lambda>k. False) 0
                 \<lparr>ex_concurrency = None, ex_cancelled = False, ex_futures = []\<rparr> items)
      | Some m \<Rightarrow>
          (None, map (\<lambda>k. run_task fn (items ! k)) (filter (\<lambda>k. k < length items) completion_order)))"

text \<open>
  Modelled from the spec: the positions of the items in the order in which
  \<open>as_completed\<close> yields their Futures (section 4.1: input order in sequential mode,
  completion order otherwise).
\<close>

definition yield_positions :: "string option \<Rightarrow> nat list \<Rightarrow> nat \<Rightarrow> nat list" where
  "yield_positions concurrency completion_order n =
     (case concurrency of None \<Rightarrow> [0..<n] | Some m \<Rightarrow> filter (\<lambda>k. k < n) completion_order)"

text \<open>\<open>test/test_executor.py\<close>, lines 6 to 8; the sleep has no value.\<close>

definition dummy_process :: "int \<Rightarrow> int \<Rightarrow> int" where
  "dummy_process i sleep = i + 1"

section \<open>Reading the trace\<close>

text \<open>
  The calls of \<open>mapchete.open\<close> and of \<open>mp.batch_processor\<close> in a trace, with their
  keyword arguments.
\<close>

fun opens :: "world \<Rightarrow> open_call list" where
  "opens [] = []"
| "opens (Open oc # w) = oc # opens w"
| "opens (ev # w) = opens w"

fun batches :: "world \<Rightarrow> batch_kwargs list" where
  "batches [] = []"
| "batches (BatchProcessor ex kw # w) = kw # batches w"
| "batches (ev # w) = batches w"

text \<open>
  The concurrency selected by a call of \<open>execute\<close>, if it returns a Job; and the
  selection in the words of section 4.3 of the specification, from \<open>tiles_count\<close>, the
  \<open>multi\<close> the caller supplied and whether a distributed scheduler is configured.
\<close>

definition selected_concurrency :: "exn + job \<Rightarrow> string option option" where
  "selected_concurrency r = (case r of Inl ex \<Rightarrow> None | Inr j \<Rightarrow> Some (job_executor_concurrency j))"

definition spec_concurrency :: "int \<Rightarrow> int option \<Rightarrow> bool \<Rightarrow> string option" where
  "spec_concurrency tiles_count multi_arg distributed_configured =
     (if distributed_configured then Some ''dask''
      else if tiles_count = 1 \<or> multi_arg = Some 1 \<or> multi_arg = None then None
      else Some ''processes'')"

section \<open>Example inputs\<close>

definition example_tile :: "int \<times> int \<times> int \<Rightarrow> tile_obj" where
  "example_tile t = \<lparr>tile_id = t, tile_bounds = (0, 0, 1, 1), tile_zoom = fst t\<rparr>"

definition example_info :: "int \<Rightarrow> process_info" where
  "example_info c = \<lparr>pi_tile = example_tile (5, 0, c), process_msg = Some ''processed'',
     write_msg = Some ''written''\<rparr>"

definition example_env :: env where
  "example_env =
     \<lparr>cpu_count = 8,
      pyramid_tile = (\<lambda>t. Inr (example_tile t)),
      bounds_from_opts = (\<lambda>p pc b bc. Inr b),
      mapchete_open = (\<lambda>oc. None),
      count_tiles = Inr 5,
      batch_processor = (\<lambda>ex kw. ([example_info 0, example_info 1], None))\<rparr>"

definition example_args :: execute_args where
  "example_args =
     \<lparr>mapchete_config = ''example.mapchete'', zoom = Some (Zooms [4, 5]), area = None,
      area_crs = None, bounds = Some (2, 2, 3, 3), bounds_crs = None, point = None,
      point_crs = None, tile = None, overwrite = False, mode = ''continue'', multi = None,
      max_chunksize = None, multiprocessing_start_method = None, dask_scheduler = None,
      msg_callback = None, as_iterator = True\<rparr>"

definition example_job :: "string option \<Rightarrow> int option \<Rightarrow> job" where
  "example_job concurrency m =
     \<lparr>job_fargs = (empty_callback, example_env),
      job_fkwargs = \<lparr>bk_tile = None, bk_multi = m, bk_zoom = Some (Zooms [4, 5])\<rparr>,
      job_executor_concurrency = concurrency,
      job_executor_kwargs =
        \<lparr>ek_dask_scheduler = None, ek_max_chunksize = None,
         ek_multiprocessing_start_method = None\<rparr>,
      job_as_iterator = True, job_total = 5, job_results = []\<rparr>"




definition failing_env :: env where
  "failing_env = example_env\<lparr>batch_processor :=
     (\<lambda>ex kw. ([example_info 0], Some (Exception ''MapcheteProcessException'')))\<rparr>"

definition eager_args :: execute_args where
  "eager_args = example_args\<lparr>as_iterator := False\<rparr>"

definition empty_job :: job where
  "empty_job = (example_job None (Some 8))\<lparr>job_total := 0\<rparr>"

definition example_cli_env :: cli_env where
  "example_cli_env =
     \<lparr>commands_convert = (\<lambda>cb. Inr empty_job),
      commands_index = (\<lambda>cb. Inr (example_job None (Some 8))),
      timer_str = ''0.1s''\<rparr>"

definition example_convert_args :: convert_args where
  "example_convert_args =
     \<lparr>tiledir = ''in'', vrt = True, debug = False, no_pbar = False, verbose = True\<rparr>"

definition failing_task :: "int \<Rightarrow> exn + int" where
  "failing_task i = (if i = 3 then Inl (Exception ''ValueError'') else Inr (dummy_process i 0))"

section \<open>Properties of the trace\<close>

text \<open>The formatted messages, on examples.\<close>

lemma example_tile_msg: "tile_msg (example_info 0) = ''Tile (5, 0, 0): processed, written''"
  by (simp add: tile_msg_def example_info_def example_tile_def str_tile_id_def str_int_def
      str_nat.simps digit_char_def)

lemma example_str_int: "str_int 128 = ''128'' \<and> str_int (- 7) = ''-7''"
  by (simp add: str_int_def str_nat.simps digit_char_def)

lemma opens_append: "opens (w @ v) = opens w @ opens v"
  by (induction w rule: opens.induct) simp_all

lemma batches_append: "batches (w @ v) = batches w @ batches v"
  by (induction w rule: batches.induct) simp_all

lemma closes_append: "closes (w @ v) = closes w + closes v"
  by (simp add: closes_def)

text \<open>An invariant of the steps of a generator holds of the generator once drained.\<close>

lemma drain_rule:
  assumes d: "drain g w = (r, g', w')"
    and inv: "P g w"
    and yield: "\<And>g w x g1 w1. P g w \<Longrightarrow> gen_next g w = (Yield x, g1, w1) \<Longrightarrow> P g1 w1"
    and stop: "\<And>g w g1 w1. P g w \<Longrightarrow> gen_next g w = (StopIteration, g1, w1) \<Longrightarrow> Q g1 w1"
    and raise: "\<And>g w e g1 w1. P g w \<Longrightarrow> gen_next g w = (Raise e, g1, w1) \<Longrightarrow> Q g1 w1"
  shows "Q g' w'"
  using d inv
proof (induction g w arbitrary: r g' w' rule: drain.induct)
  case (1 g w)
  obtain s g1 w1 where n: "gen_next g w = (s, g1, w1)"
    by (cases "gen_next g w") auto
  show ?case
  proof (cases s)
    case (Yield x)
    obtain r2 g2 w2 where d2: "drain g1 w1 = (r2, g2, w2)"
      by (cases "drain g1 w1") auto
    have p: "P g1 w1"
      using yield [OF "1.prems"(2)] n Yield by simp
    have "Q g2 w2"
      using "1.IH" [OF n [symmetric] Yield refl d2 p] .
    moreover have "g' = g2 \<and> w' = w2"
      using "1.prems"(1) n Yield d2 by (simp add: drain.simps [of g w] split: prod.splits)
    ultimately show ?thesis by simp
  next
    case StopIteration
    with "1.prems" n stop [OF "1.prems"(2)] show ?thesis
      by (simp add: drain.simps [of g w])
  next
    case (Raise e)
    with "1.prems" n raise [OF "1.prems"(2)] show ?thesis
      by (simp add: drain.simps [of g w])
  qed
qed

lemma advance_opens: "advance xs ending w = (s, st, w') \<Longrightarrow> opens w' = opens w"
  by (induction xs ending w rule: advance.induct) (auto simp: mp_exit_def opens_append)

lemma gen_next_opens: "gen_next g w = (s, g', w') \<Longrightarrow> opens w' = opens w"
  by (auto simp: gen_next_def mp_exit_def opens_append split: gen_state.splits prod.splits option.splits
      dest!: advance_opens)

lemma drain_opens: "drain g w = (r, g', w') \<Longrightarrow> opens w' = opens w"
  by (rule drain_rule [where P = "\<lambda>g1 w1. opens w1 = opens w" and Q = "\<lambda>g1 w1. opens w1 = opens w"])
     (auto dest: gen_next_opens)

lemma job_run_opens: "opens (snd (job_run j w)) = opens w"
proof (cases "job_total j = 0")
  case True
  then show ?thesis by (simp add: job_run_def)
next
  case False
  then show ?thesis
    by (auto simp: job_run_def opens_append split: prod.splits dest!: drain_opens)
qed

lemma Job_init_opens: "opens (snd (Job_init j w)) = opens w"
  using job_run_opens [of j w]
  by (auto simp: Job_init_def split: prod.splits option.splits)

lemma execute_try_opens: "opens (snd (execute_try mp a cb m t z w)) = opens w"
  by (auto simp: execute_try_def Let_def opens_append Job_init_opens split: sum.splits option.splits)

lemma execute_opens:
  "opens (snd (execute e a w)) = opens w \<or>
   (\<exists>tile' bounds' zoom'. execute_selection e a = Inr (tile', bounds', zoom') \<and>
      opens (snd (execute e a w)) = opens w @
        [\<lparr>oc_config = mapchete_config a,
          oc_mode = (if overwrite a then ''overwrite'' else mode a),
          oc_bounds = bounds', oc_zoom = zoom', oc_area = area a, oc_area_crs = area_crs a\<rparr>])"
proof (cases "execute_selection e a")
  case (Inl ex)
  then show ?thesis by (simp add: execute_def)
next
  case (Inr sel)
  obtain tile' bounds' zoom' where sel: "sel = (tile', bounds', zoom')"
    by (cases sel) auto
  define oc where "oc = \<lparr>oc_config = mapchete_config a,
          oc_mode = (if overwrite a then ''overwrite'' else mode a),
          oc_bounds = bounds', oc_zoom = zoom', oc_area = area a, oc_area_crs = area_crs a\<rparr>"
  show ?thesis
  proof (cases "mapchete_open e oc")
    case (Some ex)
    with Inr sel show ?thesis by (simp add: execute_def oc_def)
  next
    case None
    define cb where "cb = (case msg_callback a of Some f \<Rightarrow> f | None \<Rightarrow> empty_callback)"
    define m where "m = (if truthy_int (multi a) then multi a else Some (cpu_count e))"
    have "opens (snd (execute_try e a cb m tile' zoom' (w @ [Open oc]))) = opens w @ [oc]"
      by (simp add: execute_try_opens opens_append)
    with Inr sel None have "opens (snd (execute e a w)) = opens w @ [oc]"
      by (auto simp: execute_def Let_def oc_def cb_def m_def mp_exit_def opens_append
          split: prod.splits sum.splits)
    with Inr sel show ?thesis by (simp add: oc_def)
  qed
qed

lemma execute_opens_opened:
  assumes "execute_selection e a = Inr (tile', bounds', zoom')"
    and "mapchete_open e \<lparr>oc_config = mapchete_config a,
          oc_mode = (if overwrite a then ''overwrite'' else mode a),
          oc_bounds = bounds', oc_zoom = zoom', oc_area = area a, oc_area_crs = area_crs a\<rparr> = None"
  shows "opens (snd (execute e a w)) = opens w @
        [\<lparr>oc_config = mapchete_config a,
          oc_mode = (if overwrite a then ''overwrite'' else mode a),
          oc_bounds = bounds', oc_zoom = zoom', oc_area = area a, oc_area_crs = area_crs a\<rparr>]"
proof -
  define oc where "oc = \<lparr>oc_config = mapchete_config a,
          oc_mode = (if overwrite a then ''overwrite'' else mode a),
          oc_bounds = bounds', oc_zoom = zoom', oc_area = area a, oc_area_crs = area_crs a\<rparr>"
  define cb where "cb = (case msg_callback a of Some f \<Rightarrow> f | None \<Rightarrow> empty_callback)"
  define m where "m = (if truthy_int (multi a) then multi a else Some (cpu_count e))"
  have "opens (snd (execute_try e a cb m tile' zoom' (w @ [Open oc]))) = opens w @ [oc]"
    by (simp add: execute_try_opens opens_append)
  with assms have "opens (snd (execute e a w)) = opens w @ [oc]"
    by (auto simp: execute_def Let_def oc_def cb_def m_def mp_exit_def opens_append
        split: prod.splits sum.splits)
  then show ?thesis by (simp add: oc_def)
qed

section \<open>The process mode\<close>

text \<open>
  C9: whenever \<open>execute\<close> opens the processing context, the mode it passes is
  \<open>"overwrite"\<close> if \<open>overwrite\<close> is true, whatever \<open>mode\<close> was supplied, and the supplied
  \<open>mode\<close> otherwise; and when the selection of lines 99 to 110 succeeds and
  \<open>mapchete.open\<close> returns the context, \<open>execute\<close> opens it exactly once, with that mode
  and the other arguments of lines 113 to 120.
\<close>

theorem execute_overwrite_mode:
  "(\<forall>oc \<in> set (opens (snd (execute e a []))).
      oc_mode oc = (if overwrite a then ''overwrite'' else mode a)) \<and>
   (execute_selection e a = Inr (tile', bounds', zoom') \<and>
    mapchete_open e \<lparr>oc_config = mapchete_config a,
          oc_mode = (if overwrite a then ''overwrite'' else mode a),
          oc_bounds = bounds', oc_zoom = zoom', oc_area = area a, oc_area_crs = area_crs a\<rparr> = None
    \<longrightarrow> opens (snd (execute e a [])) =
          [\<lparr>oc_config = mapchete_config a,
            oc_mode = (if overwrite a then ''overwrite'' else mode a),
            oc_bounds = bounds', oc_zoom = zoom', oc_area = area a, oc_area_crs = area_crs a\<rparr>])"
proof -
  have "\<forall>oc \<in> set (opens (snd (execute e a []))).
      oc_mode oc = (if overwrite a then ''overwrite'' else mode a)"
    using execute_opens [of e a "[]"] by auto
  moreover have "opens (snd (execute e a [])) =
          [\<lparr>oc_config = mapchete_config a,
            oc_mode = (if overwrite a then ''overwrite'' else mode a),
            oc_bounds = bounds', oc_zoom = zoom', oc_area = area a, oc_area_crs = area_crs a\<rparr>]"
    if "execute_selection e a = Inr (tile', bounds', zoom')"
      and "mapchete_open e \<lparr>oc_config = mapchete_config a,
          oc_mode = (if overwrite a then ''overwrite'' else mode a),
          oc_bounds = bounds', oc_zoom = zoom', oc_area = area a, oc_area_crs = area_crs a\<rparr> = None"
    using execute_opens_opened [OF that, of "[]"] by simp
  ultimately show ?thesis by blast
qed

lemma example_selection:
  "execute_selection example_env (example_args\<lparr>overwrite := ow, mode := md\<rparr>)
     = Inr (None, Some (2, 2, 3, 3), Some (Zooms [4, 5]))"
  by (simp add: execute_selection_def example_env_def example_args_def)

theorem execute_overwrite_mode_witness:
  "overwrite (example_args\<lparr>overwrite := True, mode := ''readonly''\<rparr>) \<and>
   map oc_mode (opens (snd (execute example_env
      (example_args\<lparr>overwrite := True, mode := ''readonly''\<rparr>) []))) = [''overwrite''] \<and>
   \<not> overwrite (example_args\<lparr>overwrite := False, mode := ''readonly''\<rparr>) \<and>
   map oc_mode (opens (snd (execute example_env
      (example_args\<lparr>overwrite := False, mode := ''readonly''\<rparr>) []))) = [''readonly'']"
proof -
  have o: "mapchete_open example_env oc = None" for oc
    by (simp add: example_env_def)
  from execute_overwrite_mode [where e = example_env
      and a = "example_args\<lparr>overwrite := True, mode := ''readonly''\<rparr>"
      and tile' = None and bounds' = "Some (2, 2, 3, 3)" and zoom' = "Some (Zooms [4, 5])"] example_selection [where ow = True and md = "''readonly''"] o
  have 1: "map oc_mode (opens (snd (execute example_env
      (example_args\<lparr>overwrite := True, mode := ''readonly''\<rparr>) []))) = [''overwrite'']"
    by simp
  from execute_overwrite_mode [where e = example_env
      and a = "example_args\<lparr>overwrite := False, mode := ''readonly''\<rparr>"
      and tile' = None and bounds' = "Some (2, 2, 3, 3)" and zoom' = "Some (Zooms [4, 5])"] example_selection [where ow = False and md = "''readonly''"] o
  have 2: "map oc_mode (opens (snd (execute example_env
      (example_args\<lparr>overwrite := False, mode := ''readonly''\<rparr>) []))) = [''readonly'']"
    by simp
  from 1 2 show ?thesis by simp
qed


section \<open>The Job that \<open>execute\<close> returns\<close>

lemma Job_init_fields:
  "fst (Job_init j w) = Inr j' \<Longrightarrow>
     job_total j' = job_total j \<and> job_executor_concurrency j' = job_executor_concurrency j \<and>
     job_fkwargs j' = job_fkwargs j \<and> job_fargs j' = job_fargs j \<and>
     job_as_iterator j' = job_as_iterator j"
  by (auto simp: Job_init_def split: if_splits prod.splits option.splits)

lemma execute_try_Inr:
  assumes "fst (execute_try mp a cb m t z w) = Inr j"
  shows "\<exists>n. count_tiles mp = Inr n \<and>
           job_total j = (if t = None then n else 1) \<and>
           job_executor_concurrency j =
             (if truthy_str (dask_scheduler a) then Some ''dask''
              else if n = 1 \<or> m = Some 1 \<or> m = None then None
              else Some ''processes'') \<and>
           job_fkwargs j = \<lparr>bk_tile = t, bk_multi = m, bk_zoom = (if t = None then z else None)\<rparr> \<and>
           job_fargs j = (cb, mp) \<and>
           job_as_iterator j = as_iterator a"
proof (cases "count_tiles mp")
  case (Inl ex)
  with assms show ?thesis by (simp add: execute_try_def)
next
  case (Inr n)
  define msg where "msg = (if t = None
                      then ''processing '' @ str_int n @ '' tile(s) on ''
                             @ str_opt_int m @ '' worker(s)''
                      else ''processing 1 tile'')"
  show ?thesis
  proof (cases "cb msg")
    case (Some ex)
    with assms Inr show ?thesis by (simp add: execute_try_def msg_def)
  next
    case None
    define j0 where "j0 = \<lparr>job_fargs = (cb, mp),
                         job_fkwargs =
                           \<lparr>bk_tile = t, bk_multi = m,
                            bk_zoom = (if t = None then z else None)\<rparr>,
                         job_executor_concurrency = (if truthy_str (dask_scheduler a) then Some ''dask''
                          else if n = 1 \<or> m = Some 1 \<or> m = None then None
                          else Some ''processes''),
                         job_executor_kwargs =
                           \<lparr>ek_dask_scheduler = dask_scheduler a,
                            ek_max_chunksize = max_chunksize a,
                            ek_multiprocessing_start_method = multiprocessing_start_method a\<rparr>,
                         job_as_iterator = as_iterator a,
                         job_total = (if t = None then n else 1),
                         job_results = []\<rparr>"
    have "execute_try mp a cb m t z w = Job_init j0 (w @ [CountTiles, MsgCallback msg])"
      using Inr None unfolding execute_try_def j0_def msg_def Let_def by simp
    with assms have "fst (Job_init j0 (w @ [CountTiles, MsgCallback msg])) = Inr j"
      by simp
    from Job_init_fields [OF this] Inr show ?thesis
      by (simp add: j0_def)
  qed
qed


lemma execute_Inr:
  assumes "fst (execute e a w) = Inr j"
  shows "\<exists>tile' bounds' zoom' w1.
           execute_selection e a = Inr (tile', bounds', zoom') \<and>
           fst (execute_try e a
                  (case msg_callback a of Some f \<Rightarrow> f | None \<Rightarrow> empty_callback)
                  (if truthy_int (multi a) then multi a else Some (cpu_count e))
                  tile' zoom' w1) = Inr j"
proof (cases "execute_selection e a")
  case (Inl ex)
  with assms show ?thesis by (simp add: execute_def)
next
  case (Inr sel)
  obtain tile' bounds' zoom' where sel: "sel = (tile', bounds', zoom')"
    by (cases sel) auto
  define oc where "oc = \<lparr>oc_config = mapchete_config a,
          oc_mode = (if overwrite a then ''overwrite'' else mode a),
          oc_bounds = bounds', oc_zoom = zoom', oc_area = area a, oc_area_crs = area_crs a\<rparr>"
  define cb where "cb = (case msg_callback a of Some f \<Rightarrow> f | None \<Rightarrow> empty_callback)"
  define m where "m = (if truthy_int (multi a) then multi a else Some (cpu_count e))"
  show ?thesis
  proof (cases "mapchete_open e oc")
    case (Some ex)
    with assms Inr sel show ?thesis by (simp add: execute_def oc_def)
  next
    case None
    obtain r w' where t: "execute_try e a cb m tile' zoom' (w @ [Open oc]) = (r, w')"
      by (cases "execute_try e a cb m tile' zoom' (w @ [Open oc])") auto
    have "execute e a w =
            (case r of Inl ex \<Rightarrow> (Inl ex, if is_Exception ex then mp_exit w' else w')
             | Inr j \<Rightarrow> (Inr j, w'))"
      using Inr sel None t unfolding execute_def Let_def oc_def cb_def m_def
      by (simp split: sum.splits)
    with assms have "r = Inr j"
      by (cases r) auto
    with t have "fst (execute_try e a cb m tile' zoom' (w @ [Open oc])) = Inr j"
      by simp
    with Inr sel show ?thesis
      unfolding cb_def m_def by blast
  qed
qed

lemma execute_selection_tile:
  "execute_selection e a = Inr (tile', bounds', zoom') \<Longrightarrow> (tile' = None) = (tile a = None)"
  by (auto simp: execute_selection_def split: option.splits sum.splits)

lemma execute_job_fields:
  assumes "fst (execute e a w) = Inr j"
  shows "\<exists>n. count_tiles e = Inr n \<and>
           job_total j = (if tile a = None then n else 1) \<and>
           job_executor_concurrency j =
             (if truthy_str (dask_scheduler a) then Some ''dask''
              else if n = 1 \<or> (if truthy_int (multi a) then multi a else Some (cpu_count e)) = Some 1
                   then None
              else Some ''processes'')"
proof -
  define m where "m = (if truthy_int (multi a) then multi a else Some (cpu_count e))"
  from execute_Inr [OF assms] obtain tile' bounds' zoom' w1 where
    s: "execute_selection e a = Inr (tile', bounds', zoom')" and
    t: "fst (execute_try e a
                  (case msg_callback a of Some f \<Rightarrow> f | None \<Rightarrow> empty_callback)
                  m tile' zoom' w1) = Inr j"
    unfolding m_def by blast
  have mn: "m \<noteq> None"
    by (cases "multi a") (simp_all add: m_def)
  from execute_try_Inr [OF t] obtain n where n: "count_tiles e = Inr n"
    "job_total j = (if tile' = None then n else 1)"
    "job_executor_concurrency j =
             (if truthy_str (dask_scheduler a) then Some ''dask''
              else if n = 1 \<or> m = Some 1 \<or> m = None then None
              else Some ''processes'')"
    by blast
  from n mn execute_selection_tile [OF s] show ?thesis
    unfolding m_def [symmetric] by auto
qed


lemma example_execute:
  "fst (execute example_env example_args []) = Inr (example_job (Some ''processes'') (Some 8))"
  by (simp add: execute_def execute_selection_def execute_try_def Job_init_def example_env_def
      example_args_def example_job_def Let_def empty_callback_def)


lemma example_execute_one_cpu:
  "fst (execute (example_env\<lparr>cpu_count := 1\<rparr>) example_args [])
     = Inr ((example_job None (Some 1))\<lparr>job_fargs := (empty_callback, example_env\<lparr>cpu_count := 1\<rparr>)\<rparr>)"
  by (simp add: execute_def execute_selection_def execute_try_def Job_init_def example_env_def
      example_args_def example_job_def Let_def empty_callback_def)

lemma example_execute_multi:
  "fst (execute example_env (example_args\<lparr>multi := Some 4\<rparr>) [])
     = Inr (example_job (Some ''processes'') (Some 4))"
  by (simp add: execute_def execute_selection_def execute_try_def Job_init_def example_env_def
      example_args_def example_job_def Let_def empty_callback_def)

lemma example_execute_multi_one_cpu:
  "fst (execute (example_env\<lparr>cpu_count := 1\<rparr>) (example_args\<lparr>multi := Some 4\<rparr>) [])
     = Inr ((example_job (Some ''processes'') (Some 4))
              \<lparr>job_fargs := (empty_callback, example_env\<lparr>cpu_count := 1\<rparr>)\<rparr>)"
  by (simp add: execute_def execute_selection_def execute_try_def Job_init_def example_env_def
      example_args_def example_job_def Let_def empty_callback_def)

section \<open>The selection of the concurrency\<close>

text \<open>
  C1, as amended: when \<open>execute\<close> returns a Job, its concurrency is \<open>"dask"\<close> if
  \<open>dask_scheduler\<close> is truthy; otherwise \<open>None\<close> (sequential) if \<open>tiles_count\<close> is 1 or
  the worker count is 1, the worker count being \<open>multi\<close> when it is a nonzero integer and
  \<open>cpu_count()\<close> when it is \<open>None\<close> or 0 (line 97); otherwise \<open>"processes"\<close>. An unset
  \<open>multi\<close> does not by itself select the sequential mode.
\<close>

theorem execute_concurrency_selection:
  assumes "fst (execute e a w) = Inr j" and "count_tiles e = Inr tiles_count"
  shows "job_executor_concurrency j =
           (if truthy_str (dask_scheduler a) then Some ''dask''
            else if tiles_count = 1
                  \<or> (if truthy_int (multi a) then multi a else Some (cpu_count e)) = Some 1
                 then None
            else Some ''processes'')"
  using execute_job_fields [OF assms(1)] assms(2) by auto

theorem execute_concurrency_selection_witness:
  "fst (execute example_env example_args []) = Inr (example_job (Some ''processes'') (Some 8)) \<and>
   count_tiles example_env = Inr 5 \<and>
   job_executor_concurrency (example_job (Some ''processes'') (Some 8)) = Some ''processes''"
proof -
  have c: "count_tiles example_env = Inr 5"
    by (simp add: example_env_def)
  from execute_concurrency_selection [OF example_execute c]
  have "job_executor_concurrency (example_job (Some ''processes'') (Some 8)) = Some ''processes''"
    by (simp add: example_args_def example_env_def)
  with example_execute c show ?thesis by simp
qed

theorem execute_concurrency_selection_counterexample:
  "multi example_args = None \<and> dask_scheduler example_args = None \<and>
   count_tiles example_env = Inr 5 \<and>
   selected_concurrency (fst (execute example_env example_args [])) = Some (Some ''processes'') \<and>
   spec_concurrency 5 (multi example_args) (truthy_str (dask_scheduler example_args)) = None"
  by (simp add: example_execute selected_concurrency_def spec_concurrency_def)
     (simp add: example_args_def example_env_def example_job_def)

text \<open>
  C2, as amended: two calls of \<open>execute\<close> that return a Job, with the same \<open>tiles_count\<close>,
  the same \<open>multi\<close> and the same truthiness of \<open>dask_scheduler\<close>, select the same
  concurrency provided \<open>multi\<close> is a nonzero integer or the two CPU counts agree. With
  \<open>multi\<close> unset the selection depends on the CPU count of the machine.
\<close>

theorem execute_concurrency_deterministic:
  assumes "fst (execute e1 a1 w1) = Inr j1" and "fst (execute e2 a2 w2) = Inr j2"
    and "count_tiles e1 = count_tiles e2" and "multi a1 = multi a2"
    and "truthy_str (dask_scheduler a1) = truthy_str (dask_scheduler a2)"
    and "truthy_int (multi a1) \<or> cpu_count e1 = cpu_count e2"
  shows "job_executor_concurrency j1 = job_executor_concurrency j2"
  using execute_job_fields [OF assms(1)] execute_job_fields [OF assms(2)] assms(3-6)
  by auto

theorem execute_concurrency_deterministic_witness:
  "fst (execute example_env (example_args\<lparr>multi := Some 4\<rparr>) [])
     = Inr (example_job (Some ''processes'') (Some 4)) \<and>
   fst (execute (example_env\<lparr>cpu_count := 1\<rparr>) (example_args\<lparr>multi := Some 4\<rparr>) [])
     = Inr ((example_job (Some ''processes'') (Some 4))
              \<lparr>job_fargs := (empty_callback, example_env\<lparr>cpu_count := 1\<rparr>)\<rparr>) \<and>
   cpu_count example_env \<noteq> cpu_count (example_env\<lparr>cpu_count := 1\<rparr>) \<and>
   job_executor_concurrency (example_job (Some ''processes'') (Some 4))
     = job_executor_concurrency ((example_job (Some ''processes'') (Some 4))
              \<lparr>job_fargs := (empty_callback, example_env\<lparr>cpu_count := 1\<rparr>)\<rparr>)"
proof -
  have "job_executor_concurrency (example_job (Some ''processes'') (Some 4))
     = job_executor_concurrency ((example_job (Some ''processes'') (Some 4))
              \<lparr>job_fargs := (empty_callback, example_env\<lparr>cpu_count := 1\<rparr>)\<rparr>)"
    by (rule execute_concurrency_deterministic [OF example_execute_multi example_execute_multi_one_cpu])
       simp_all
  moreover have "cpu_count example_env \<noteq> cpu_count (example_env\<lparr>cpu_count := 1\<rparr>)"
    by (simp add: example_env_def)
  ultimately show ?thesis
    using example_execute_multi example_execute_multi_one_cpu by simp
qed

theorem execute_concurrency_deterministic_counterexample:
  "count_tiles (example_env\<lparr>cpu_count := 1\<rparr>) = count_tiles example_env \<and>
   selected_concurrency (fst (execute (example_env\<lparr>cpu_count := 1\<rparr>) example_args [])) = Some None \<and>
   selected_concurrency (fst (execute example_env example_args [])) = Some (Some ''processes'')"
  by (simp add: example_execute example_execute_one_cpu selected_concurrency_def)
     (simp add: example_job_def)

section \<open>The order and the arguments of the calls\<close>





lemma execute_try_cases:
  "(\<exists>ex. execute_try mp a cb m t z w = (Inl ex, w @ [CountTiles])) \<or>
   (\<exists>ex msg. execute_try mp a cb m t z w = (Inl ex, w @ [CountTiles, MsgCallback msg])) \<or>
   (\<exists>n msg. count_tiles mp = Inr n \<and>
      execute_try mp a cb m t z w =
        Job_init
          \<lparr>job_fargs = (cb, mp),
           job_fkwargs = \<lparr>bk_tile = t, bk_multi = m, bk_zoom = (if t = None then z else None)\<rparr>,
           job_executor_concurrency =
             (if truthy_str (dask_scheduler a) then Some ''dask''
              else if n = 1 \<or> m = Some 1 \<or> m = None then None
              else Some ''processes''),
           job_executor_kwargs =
             \<lparr>ek_dask_scheduler = dask_scheduler a, ek_max_chunksize = max_chunksize a,
              ek_multiprocessing_start_method = multiprocessing_start_method a\<rparr>,
           job_as_iterator = as_iterator a,
           job_total = (if t = None then n else 1),
           job_results = []\<rparr>
          (w @ [CountTiles, MsgCallback msg]))"
proof (cases "count_tiles mp")
  case (Inl ex)
  then show ?thesis by (simp add: execute_try_def)
next
  case (Inr n)
  define msg where "msg = (if t = None
                      then ''processing '' @ str_int n @ '' tile(s) on ''
                             @ str_opt_int m @ '' worker(s)''
                      else ''processing 1 tile'')"
  show ?thesis
  proof (cases "cb msg")
    case (Some ex)
    with Inr have "execute_try mp a cb m t z w = (Inl ex, w @ [CountTiles, MsgCallback msg])"
      by (simp add: execute_try_def msg_def)
    then show ?thesis by blast
  next
    case None
    have "execute_try mp a cb m t z w =
        Job_init
          \<lparr>job_fargs = (cb, mp),
           job_fkwargs = \<lparr>bk_tile = t, bk_multi = m, bk_zoom = (if t = None then z else None)\<rparr>,
           job_executor_concurrency =
             (if truthy_str (dask_scheduler a) then Some ''dask''
              else if n = 1 \<or> m = Some 1 \<or> m = None then None
              else Some ''processes''),
           job_executor_kwargs =
             \<lparr>ek_dask_scheduler = dask_scheduler a, ek_max_chunksize = max_chunksize a,
              ek_multiprocessing_start_method = multiprocessing_start_method a\<rparr>,
           job_as_iterator = as_iterator a,
           job_total = (if t = None then n else 1),
           job_results = []\<rparr>
          (w @ [CountTiles, MsgCallback msg])"
      using Inr None unfolding execute_try_def msg_def Let_def by simp
    with Inr show ?thesis by blast
  qed
qed



lemma gen_next_batches:
  assumes "gen_next g w = (s, g', w')"
  shows "g_kwargs g' = g_kwargs g \<and> g_state g' \<noteq> Created \<and>
         batches w' = (if g_state g = Created then batches w @ [g_kwargs g] else batches w)"
proof (cases "g_state g")
  case Created
  with assms show ?thesis
    by (auto simp: gen_next_def mp_exit_def batches_append split: prod.splits elim!: advance.elims)
next
  case (Suspended x xs ending)
  with assms show ?thesis
    by (auto simp: gen_next_def mp_exit_def batches_append split: prod.splits option.splits
        elim!: advance.elims)
next
  case Finished
  with assms show ?thesis by (auto simp: gen_next_def)
qed




lemma gen_next_closes:
  assumes "gen_next g w = (s, g', w')" and "g_state g \<noteq> Finished"
  shows "(case s of Yield x \<Rightarrow> closes w' = closes w \<and> g_state g' \<noteq> Finished
          | StopIteration \<Rightarrow> closes w' = closes w + 1 \<and> g_state g' = Finished
          | Raise e \<Rightarrow> closes w' = closes w + 1 \<and> g_state g' = Finished)"
proof (cases "g_state g")
  case Created
  with assms show ?thesis
    by (auto simp: gen_next_def mp_exit_def closes_def split: prod.splits elim!: advance.elims)
next
  case (Suspended x xs ending)
  with assms show ?thesis
    by (auto simp: gen_next_def mp_exit_def closes_def split: prod.splits option.splits
        elim!: advance.elims)
next
  case Finished
  with assms show ?thesis by simp
qed

lemma drain_closes:
  assumes "drain g w = (r, g', w')" and "g_state g \<noteq> Finished"
  shows "closes w' = closes w + 1 \<and> g_state g' = Finished"
proof (rule drain_rule [where
      P = "\<lambda>g1 w1. g_state g1 \<noteq> Finished \<and> closes w1 = closes w"
      and Q = "\<lambda>g1 w1. closes w1 = closes w + 1 \<and> g_state g1 = Finished", OF assms(1)])
  show "g_state g \<noteq> Finished \<and> closes w = closes w"
    using assms(2) by simp
next
  fix g0 w0 x g1 w1
  assume "g_state g0 \<noteq> Finished \<and> closes w0 = closes w" and "gen_next g0 w0 = (Yield x, g1, w1)"
  then show "g_state g1 \<noteq> Finished \<and> closes w1 = closes w"
    using gen_next_closes [of g0 w0 "Yield x" g1 w1] by simp
next
  fix g0 w0 g1 w1
  assume "g_state g0 \<noteq> Finished \<and> closes w0 = closes w"
    and "gen_next g0 w0 = (StopIteration, g1, w1)"
  then show "closes w1 = closes w + 1 \<and> g_state g1 = Finished"
    using gen_next_closes [of g0 w0 StopIteration g1 w1] by simp
next
  fix g0 w0 e g1 w1
  assume "g_state g0 \<noteq> Finished \<and> closes w0 = closes w"
    and "gen_next g0 w0 = (Raise e, g1, w1)"
  then show "closes w1 = closes w + 1 \<and> g_state g1 = Finished"
    using gen_next_closes [of g0 w0 "Raise e" g1 w1] by simp
qed





section \<open>The total of the Job\<close>




section \<open>A tile overrides zoom and bounds\<close>






section \<open>The release of the processing context\<close>

text \<open>
  The paths on which the context is released exactly once: \<open>_msg_wrapper\<close> drained to
  its end, by exhaustion or by an exception mid-stream; \<open>_msg_wrapper\<close> abandoned after
  its first \<open>next\<close>; a failure of \<open>mp.count_tiles()\<close> before the Job is constructed. A
  generator that was never started releases nothing when it is closed.
\<close>

lemma msg_wrapper_drained_releases_once:
  "drain (msg_wrapper msg_cb mp executor kwargs) w = (r, g', w') \<Longrightarrow> closes w' = closes w + 1"
  using drain_closes [of "msg_wrapper msg_cb mp executor kwargs" w r g' w']
  by (simp add: msg_wrapper_def)

lemma abandon_suspended_releases_once:
  "g_state g = Suspended x xs ending \<Longrightarrow> closes (snd (abandon_after k g w)) = closes w + 1"
proof (induction k arbitrary: g w x xs ending)
  case 0
  then show ?case by (simp add: gen_close_def mp_exit_def closes_def)
next
  case (Suc k)
  obtain s g1 w1 where n: "gen_next g w = (s, g1, w1)"
    by (cases "gen_next g w") auto
  from Suc.prems have nf: "g_state g \<noteq> Finished" by simp
  show ?case
  proof (cases s)
    case (Yield y)
    with gen_next_closes [OF n nf] gen_next_batches [OF n]
    have c: "closes w1 = closes w" and "g_state g1 \<noteq> Finished" "g_state g1 \<noteq> Created"
      by simp_all
    then obtain y' ys e' where "g_state g1 = Suspended y' ys e'"
      by (cases "g_state g1") auto
    from Suc.IH [OF this, of w1] c n Yield show ?thesis by simp
  next
    case StopIteration
    with gen_next_closes [OF n nf] n show ?thesis by simp
  next
    case (Raise e)
    with gen_next_closes [OF n nf] n show ?thesis by simp
  qed
qed

lemma msg_wrapper_abandoned_releases_once:
  "closes (snd (abandon_after (Suc k) (msg_wrapper msg_cb mp executor kwargs) w)) = closes w + 1"
proof -
  let ?g = "msg_wrapper msg_cb mp executor kwargs"
  obtain s g1 w1 where n: "gen_next ?g w = (s, g1, w1)"
    by (cases "gen_next ?g w") auto
  have nf: "g_state ?g \<noteq> Finished" by (simp add: msg_wrapper_def)
  show ?thesis
  proof (cases s)
    case (Yield y)
    with gen_next_closes [OF n nf] gen_next_batches [OF n]
    have c: "closes w1 = closes w" and "g_state g1 \<noteq> Finished" "g_state g1 \<noteq> Created"
      by simp_all
    then obtain y' ys e' where "g_state g1 = Suspended y' ys e'"
      by (cases "g_state g1") auto
    from abandon_suspended_releases_once [OF this, of k w1] c n Yield show ?thesis by simp
  next
    case StopIteration
    with gen_next_closes [OF n nf] n show ?thesis by simp
  next
    case (Raise e)
    with gen_next_closes [OF n nf] n show ?thesis by simp
  qed
qed

lemma msg_wrapper_never_started_not_released:
  "closes (snd (abandon_after 0 (msg_wrapper msg_cb mp executor kwargs) w)) = closes w"
  by (simp add: gen_close_def msg_wrapper_def)

lemma execute_count_failure_releases_once:
  assumes "execute_selection e a = Inr (tile', bounds', zoom')"
    and "mapchete_open e \<lparr>oc_config = mapchete_config a,
          oc_mode = (if overwrite a then ''overwrite'' else mode a),
          oc_bounds = bounds', oc_zoom = zoom', oc_area = area a, oc_area_crs = area_crs a\<rparr> = None"
    and "count_tiles e = Inl (Exception s)"
  shows "execute e a w =
           (Inl (Exception s),
            w @ [Open \<lparr>oc_config = mapchete_config a,
                  oc_mode = (if overwrite a then ''overwrite'' else mode a),
                  oc_bounds = bounds', oc_zoom = zoom', oc_area = area a, oc_area_crs = area_crs a\<rparr>,
                 CountTiles, Exit])"
  using assms by (simp add: execute_def execute_try_def mp_exit_def)

text \<open>
  A Job returned with \<open>as_iterator\<close> has not released the context when \<open>execute\<close>
  returns; iterating it to its end releases the context once, provided its total is not 0.
\<close>

lemma job_run_releases_once:
  assumes "job_total j \<noteq> 0"
  shows "closes (snd (job_run j w)) = closes w + 1"
proof -
  obtain r g w' where d: "drain
                (msg_wrapper (fst (job_fargs j)) (snd (job_fargs j)) (job_executor_concurrency j)
                   (job_fkwargs j))
                (w @ [ExecutorEnter (job_executor_concurrency j) (job_executor_kwargs j)]) = (r, g, w')"
    by (metis prod_cases3)
  from msg_wrapper_drained_releases_once [OF d] have "closes w' = closes w + 1"
    by (simp add: closes_def)
  with assms d show ?thesis
    by (simp add: job_run_def closes_def)
qed

lemma execute_lazy_not_released:
  assumes "as_iterator a" and "fst (execute e a w) = Inr j"
  shows "closes (snd (execute e a w)) = closes w"
proof (cases "execute_selection e a")
  case (Inl ex)
  with assms show ?thesis by (simp add: execute_def)
next
  case (Inr sel)
  obtain tile' bounds' zoom' where sel: "sel = (tile', bounds', zoom')"
    by (cases sel) auto
  define oc where "oc = \<lparr>oc_config = mapchete_config a,
          oc_mode = (if overwrite a then ''overwrite'' else mode a),
          oc_bounds = bounds', oc_zoom = zoom', oc_area = area a, oc_area_crs = area_crs a\<rparr>"
  define cb where "cb = (case msg_callback a of Some f \<Rightarrow> f | None \<Rightarrow> empty_callback)"
  define m where "m = (if truthy_int (multi a) then multi a else Some (cpu_count e))"
  show ?thesis
  proof (cases "mapchete_open e oc")
    case (Some ex)
    with assms Inr sel show ?thesis by (simp add: execute_def oc_def)
  next
    case None
    obtain r w' where t: "execute_try e a cb m tile' zoom' (w @ [Open oc]) = (r, w')"
      by (cases "execute_try e a cb m tile' zoom' (w @ [Open oc])") auto
    have x: "execute e a w =
            (case r of Inl ex \<Rightarrow> (Inl ex, if is_Exception ex then mp_exit w' else w')
             | Inr j \<Rightarrow> (Inr j, w'))"
      using Inr sel None t unfolding execute_def Let_def oc_def cb_def m_def
      by (simp split: sum.splits)
    with assms have r: "r = Inr j"
      by (cases r) auto
    with x have s: "snd (execute e a w) = w'"
      by simp
    from execute_try_cases [of e a cb m tile' zoom' "w @ [Open oc]"] t r assms(1)
    have "\<exists>msg. w' = (w @ [Open oc]) @ [CountTiles, MsgCallback msg]"
      by (auto simp: Job_init_def)
    then show ?thesis
      unfolding s by (auto simp: closes_def)
  qed
qed

text \<open>
  C3: the context should be released exactly once on every termination path. It is
  released twice at this input: \<open>execute\<close> without \<open>as_iterator\<close>, five tiles, and a
  batch processor that raises after its first item. The Job drains \<open>_msg_wrapper\<close> while it is
  constructed, inside the \<open>try\<close> of \<open>execute\<close>: the \<open>finally\<close> of \<open>_msg_wrapper\<close>
  releases the context, and the exception then reaches \<open>except Exception\<close>, which
  releases it a second time.
\<close>

theorem execute_eager_failure_releases_twice:
  "as_iterator eager_args = False \<and>
   batch_processor failing_env (Some ''processes'')
       \<lparr>bk_tile = None, bk_multi = Some 8, bk_zoom = Some (Zooms [4, 5])\<rparr>
     = ([example_info 0], Some (Exception ''MapcheteProcessException'')) \<and>
   fst (execute failing_env eager_args []) = Inl (Exception ''MapcheteProcessException'') \<and>
   closes (snd (execute failing_env eager_args [])) = 2"
  by (simp add: execute_def execute_selection_def execute_try_def Job_init_def job_run_def
      msg_wrapper_def drain.simps gen_next_def mp_exit_def closes_def failing_env_def eager_args_def
      example_env_def example_args_def Let_def empty_callback_def)

section \<open>The command line skips an empty Job\<close>

text \<open>
  C4: when the Job that \<open>commands.convert\<close> returns has length 0, the command
  \<open>convert\<close> returns normally and leaves the trace as it was: the Job is not iterated,
  no executor is used, nothing is written and the VRT step is skipped too. Iterating
  such a Job would give no item and use no executor either.
\<close>

theorem convert_skips_empty_job:
  assumes "commands_convert c (if verbose a then Some tqdm_write else None) = Inr j"
    and "job_total j = 0"
  shows "len_job j = Inr 0 \<and> convert c a w = (None, w) \<and> job_run j w = ((None, []), w)"
  using assms by (simp add: convert_def len_job_def job_run_def)

theorem convert_skips_empty_job_witness:
  "commands_convert example_cli_env (if verbose example_convert_args then Some tqdm_write else None)
     = Inr empty_job \<and>
   job_total empty_job = 0 \<and> vrt example_convert_args \<and>
   convert example_cli_env example_convert_args [] = (None, [])"
proof -
  have c: "commands_convert example_cli_env
             (if verbose example_convert_args then Some tqdm_write else None) = Inr empty_job"
    by (simp add: example_cli_env_def)
  have t: "job_total empty_job = 0"
    by (simp add: empty_job_def)
  from convert_skips_empty_job [OF c t, of "[]"] c t show ?thesis
    by (simp add: example_convert_args_def)
qed


section \<open>The Executor in sequential mode and the capture of failures\<close>

lemma sequential_loop_all:
  "\<not> ex_cancelled ex \<Longrightarrow>
     sequential_loop fn (\<lambda>k. False) k ex items =
       ((None, map (run_task fn) items), ex\<lparr>ex_futures := ex_futures ex @ map (run_task fn) items\<rparr>)"
proof (induction items arbitrary: k ex)
  case Nil
  then show ?case by simp
next
  case (Cons i rest)
  then show ?case by (simp add: sequential_next_def)
qed

lemma as_completed_sequential: "as_completed None order fn items = (None, map (run_task fn) items)"
  by (simp add: as_completed_def sequential_loop_all)

lemma as_completed_positions:
  "as_completed concurrency order fn items =
     (None, map (\<lambda>k. run_task fn (items ! k)) (yield_positions concurrency order (length items)))"
proof (cases concurrency)
  case None
  have "map (run_task fn) (map ((!) items) [0..<length items]) = map (run_task fn) items"
    by (simp only: map_nth)
  then have "map (\<lambda>k. run_task fn (items ! k)) [0..<length items] = map (run_task fn) items"
    by (simp add: comp_def)
  with None show ?thesis
    by (simp add: as_completed_sequential yield_positions_def)
next
  case (Some m)
  then show ?thesis by (simp add: as_completed_def yield_positions_def)
qed

text \<open>
  The second loop of \<open>test_sequential_executor\<close>: after \<open>cancel()\<close> on the first
  Future, no further Future is yielded.
\<close>

lemma sequential_cancel_after_first:
  "\<not> ex_cancelled ex \<Longrightarrow>
     fst (sequential_loop fn (\<lambda>k. k = 0) 0 ex (i # rest)) = (None, [run_task fn i])"
  by (cases rest) (simp_all add: sequential_next_def cancel_def)

text \<open>
  C5: in sequential mode \<open>as_completed\<close> raises nothing, yields as many Futures as
  there are items, and the i-th Future is the one of the i-th item; for the ten items of
  \<open>range(10)\<close> and \<open>_dummy_process\<close> the results are 1 to 10 in that order.
\<close>

theorem sequential_as_completed_preserves_order:
  "fst (as_completed None order fn items) = None \<and>
   length (snd (as_completed None order fn items)) = length items \<and>
   (\<forall>i < length items. snd (as_completed None order fn items) ! i = run_task fn (items ! i)) \<and>
   map result (snd (as_completed None order (\<lambda>i. Inr (dummy_process i 0)) [0, 1, 2, 3, 4, 5, 6, 7, 8, 9]))
     = map Returned [1, 2, 3, 4, 5, 6, 7, 8, 9, 10]"
proof -
  have "map result (map (run_task (\<lambda>i. Inr (dummy_process i 0))) [0, 1, 2, 3, 4, 5, 6, 7, 8, 9])
          = map Returned [1, 2, 3, 4, 5, 6, 7, 8, 9, 10]"
    by (simp add: run_task_def dummy_process_def)
  then show ?thesis
    by (simp add: as_completed_sequential)
qed

theorem sequential_as_completed_preserves_order_witness:
  "(2::nat) < length [1, 3, 5 :: int] \<and>
   snd (as_completed None [] failing_task [1, 3, 5]) ! 2 = Completed 6"
proof -
  have "snd (as_completed None [] failing_task [1, 3, 5]) ! 2 = run_task failing_task ([1, 3, 5] ! 2)"
    using sequential_as_completed_preserves_order [of "[]" failing_task "[1, 3, 5]"] by simp
  then show ?thesis
    by (simp add: run_task_def failing_task_def dummy_process_def)
qed

text \<open>
  C7: in every concurrency mode, when the Task of the item at position \<open>i\<close> raises \<open>e\<close>,
  \<open>as_completed\<close> itself raises nothing, the Future yielded for that item is the failure
  \<open>e\<close>, and its \<open>result()\<close> raises \<open>e\<close>.
\<close>

theorem task_failure_captured_in_future:
  assumes "i < length items" and "fn (items ! i) = Inl e"
  shows "fst (as_completed concurrency order fn items) = None \<and>
         (\<forall>p < length (yield_positions concurrency order (length items)).
            yield_positions concurrency order (length items) ! p = i \<longrightarrow>
              snd (as_completed concurrency order fn items) ! p = Failed e \<and>
              result (snd (as_completed concurrency order fn items) ! p) = Raised e)"
  using assms by (simp add: as_completed_positions run_task_def)

theorem task_failure_captured_in_future_witness:
  "(1::nat) < length [1, 3, 5 :: int] \<and> failing_task ([1, 3, 5] ! 1) = Inl (Exception ''ValueError'') \<and>
   yield_positions (Some ''threads'') [2, 1, 0] (length [1, 3, 5 :: int]) ! 1 = 1 \<and>
   fst (as_completed (Some ''threads'') [2, 1, 0] failing_task [1, 3, 5]) = None \<and>
   result (snd (as_completed (Some ''threads'') [2, 1, 0] failing_task [1, 3, 5]) ! 1)
     = Raised (Exception ''ValueError'')"
proof -
  have l: "(1::nat) < length [1, 3, 5 :: int]" by simp
  have f: "failing_task ([1, 3, 5] ! 1) = Inl (Exception ''ValueError'')"
    by (simp add: failing_task_def)
  have y: "yield_positions (Some ''threads'') [2, 1, 0] (length [1, 3, 5 :: int]) = [2, 1, 0]"
    by (simp add: yield_positions_def)
  from task_failure_captured_in_future [where i = 1 and items = "[1, 3, 5]" and fn = failing_task
      and e = "Exception ''ValueError''" and concurrency = "Some ''threads''" and order = "[2, 1, 0]",
      OF l f]
  have "fst (as_completed (Some ''threads'') [2, 1, 0] failing_task [1, 3, 5]) = None"
    and "result (snd (as_completed (Some ''threads'') [2, 1, 0] failing_task [1, 3, 5]) ! 1)
           = Raised (Exception ''ValueError'')"
    unfolding y by simp_all
  with l f y show ?thesis by simp
qed

end
